theory Spec2Isabelle
  imports Complex_Main "HOL-Library.AList"
begin

section \<open>Yearly precipitation statistics: the \<open>WeatherAPI\<close> class\<close>

text \<open>
  A shallow embedding of \<^verbatim>\<open>yearly_weather_statistics_using_openmeteo.py\<close>:
  the private methods \<^verbatim>\<open>__process_dates\<close> and \<^verbatim>\<open>__send_request\<close> and the public
  \<^verbatim>\<open>get_yearly_precipitation\<close>. The network client is a parameter \<open>fetch\<close>;
  the local time zone of the interpreter is a parameter \<open>utcoffset\<close>. Every
  exception the Python can raise on the modelled path is a value \<open>Inl e\<close>.
\<close>

subsection \<open>Exceptions\<close>

datatype error = ValueError | OutOfBoundsDatetime | IndexError | KeyError | TypeError

subsection \<open>Calendar arithmetic of \<^verbatim>\<open>datetime\<close>\<close>

text \<open>
  \<^verbatim>\<open>datetime.strptime(f"01/01/{i}", "%m/%d/%Y")\<close>: the directive \<^verbatim>\<open>%Y\<close> matches exactly
  four decimal digits and \<^verbatim>\<open>f"{i}"\<close> pads nothing, so the parse succeeds exactly
  for \<open>1000 \<le> i \<le> 9999\<close> and raises \<^verbatim>\<open>ValueError\<close> otherwise. The result is the
  naive datetime (year, month, day) at midnight.
\<close>

definition strptime_mdY :: "nat \<Rightarrow> nat \<Rightarrow> int \<Rightarrow> error + (int \<times> nat \<times> nat)" where
  "strptime_mdY m d i = (if 1000 \<le> i \<and> i \<le> 9999 then Inr (i, m, d) else Inl ValueError)"

definition is_leap :: "int \<Rightarrow> bool" where
  "is_leap y = (y mod 4 = 0 \<and> (y mod 400 = 0 \<or> y mod 100 \<noteq> 0))"

definition days_before_year :: "int \<Rightarrow> int" where
  "days_before_year y = (y - 1) * 365 + (y - 1) div 4 - (y - 1) div 100 + (y - 1) div 400"

definition DAYS_BEFORE_MONTH :: "int list" where
  "DAYS_BEFORE_MONTH = [-1, 0, 31, 59, 90, 120, 151, 181, 212, 243, 273, 304, 334]"

definition days_before_month :: "int \<Rightarrow> nat \<Rightarrow> int" where
  "days_before_month y m = DAYS_BEFORE_MONTH ! m + (if 2 < m \<and> is_leap y then 1 else 0)"

definition ymd2ord :: "int \<Rightarrow> nat \<Rightarrow> nat \<Rightarrow> int" where
  "ymd2ord y m d = days_before_year y + days_before_month y m + int d"

text \<open>
  \<^verbatim>\<open>int(dt.timestamp())\<close> of a naive datetime at midnight: the seconds from
  1970-01-01 (ordinal 719163) read as local time, minus the UTC offset the local zone
  has at that local time.
\<close>

definition local_seconds :: "int \<times> nat \<times> nat \<Rightarrow> int" where
  "local_seconds dt = (case dt of (y, m, d) \<Rightarrow> (ymd2ord y m d - 719163) * 86400)"

definition timestamp :: "(int \<Rightarrow> int) \<Rightarrow> int \<times> nat \<times> nat \<Rightarrow> int" where
  "timestamp utcoffset dt = local_seconds dt - utcoffset (local_seconds dt)"

subsection \<open>\<^verbatim>\<open>__process_dates\<close>\<close>

definition year_dates :: "(int \<Rightarrow> int) \<Rightarrow> int \<Rightarrow> error + (int \<times> int)" where
  "year_dates utcoffset i =
     (case strptime_mdY 1 1 i of
        Inl e \<Rightarrow> Inl e
      | Inr a \<Rightarrow>
          (case strptime_mdY 12 31 i of
             Inl e \<Rightarrow> Inl e
           | Inr b \<Rightarrow> Inr (timestamp utcoffset a, timestamp utcoffset b)))"

text \<open>The list comprehension: the first element that raises ends it.\<close>

fun comprehension :: "('a \<Rightarrow> error + 'b) \<Rightarrow> 'a list \<Rightarrow> error + 'b list" where
  "comprehension f [] = Inr []"
| "comprehension f (x # xs) =
     (case f x of
        Inl e \<Rightarrow> Inl e
      | Inr y \<Rightarrow> (case comprehension f xs of Inl e \<Rightarrow> Inl e | Inr ys \<Rightarrow> Inr (y # ys)))"

definition process_dates :: "(int \<Rightarrow> int) \<Rightarrow> int \<Rightarrow> int \<Rightarrow> error + (int \<times> int) list" where
  "process_dates utcoffset year_start year_end =
     comprehension (year_dates utcoffset) [year_start..year_end]"

subsection \<open>The window length: \<^verbatim>\<open>len(pd.date_range(..., inclusive="left"))\<close>\<close>

text \<open>
  \<^verbatim>\<open>pd.to_datetime(t, unit="s")\<close> gives a nanosecond \<^verbatim>\<open>Timestamp\<close>, a signed 64-bit
  count, and raises \<^verbatim>\<open>OutOfBoundsDatetime\<close> when \<open>t\<close> seconds do not fit.
\<close>

definition to_datetime :: "int \<Rightarrow> error + int" where
  "to_datetime t =
     (if - 9223372036 \<le> t \<and> t \<le> 9223372036 then Inr t else Inl OutOfBoundsDatetime)"

text \<open>
  \<^verbatim>\<open>pd.date_range(start, end, freq = 86400 s, inclusive = "left")\<close>: the points
  \<open>start + k * 86400 \<le> end\<close>, and of these the one equal to \<open>end\<close> is dropped.
\<close>

definition date_range_left_len :: "int \<Rightarrow> int \<Rightarrow> nat" where
  "date_range_left_len start end' =
     (if end' < start then 0
      else (let n = nat ((end' - start) div 86400) + 1
            in if (end' - start) mod 86400 = 0 then n - 1 else n))"

definition window_days :: "int \<times> int \<Rightarrow> error + nat" where
  "window_days se =
     (case to_datetime (fst se) of
        Inl e \<Rightarrow> Inl e
      | Inr a \<Rightarrow>
          (case to_datetime (snd se) of
             Inl e \<Rightarrow> Inl e
           | Inr b \<Rightarrow> Inr (date_range_left_len a b)))"

subsection \<open>The values of the numpy array and its reductions\<close>

text \<open>
  A daily value is a float: a finite number, an infinity or not-a-number. Finite values
  are exact rationals here: rounding and overflow of the 32-bit floats are not part of
  the model, the propagation of not-a-number and of the infinities is.
\<close>

datatype npfloat = NaN | NegInf | Fin rat | PosInf

fun fadd :: "npfloat \<Rightarrow> npfloat \<Rightarrow> npfloat" where
  "fadd NaN y = NaN"
| "fadd x NaN = NaN"
| "fadd PosInf NegInf = NaN"
| "fadd NegInf PosInf = NaN"
| "fadd PosInf y = PosInf"
| "fadd x PosInf = PosInf"
| "fadd NegInf y = NegInf"
| "fadd x NegInf = NegInf"
| "fadd (Fin a) (Fin b) = Fin (a + b)"

fun fminimum :: "npfloat \<Rightarrow> npfloat \<Rightarrow> npfloat" where
  "fminimum NaN y = NaN"
| "fminimum x NaN = NaN"
| "fminimum NegInf y = NegInf"
| "fminimum x NegInf = NegInf"
| "fminimum PosInf y = y"
| "fminimum x PosInf = x"
| "fminimum (Fin a) (Fin b) = Fin (min a b)"

fun fmaximum :: "npfloat \<Rightarrow> npfloat \<Rightarrow> npfloat" where
  "fmaximum NaN y = NaN"
| "fmaximum x NaN = NaN"
| "fmaximum PosInf y = PosInf"
| "fmaximum x PosInf = PosInf"
| "fmaximum NegInf y = y"
| "fmaximum x NegInf = x"
| "fmaximum (Fin a) (Fin b) = Fin (max a b)"

fun fdiv_count :: "npfloat \<Rightarrow> nat \<Rightarrow> npfloat" where
  "fdiv_count (Fin a) n = (if n = 0 then NaN else Fin (a / of_nat n))"
| "fdiv_count x n = x"

text \<open>\<^verbatim>\<open>a.sum()\<close>: the sum of no element is \<open>0.0\<close>.\<close>

definition np_sum :: "npfloat list \<Rightarrow> npfloat" where
  "np_sum xs = foldl fadd (Fin 0) xs"

text \<open>\<^verbatim>\<open>np.mean(a)\<close>: the sum over the number of elements; of no element it is
  not-a-number (a warning, no exception).\<close>

definition np_mean :: "npfloat list \<Rightarrow> npfloat" where
  "np_mean xs = (if xs = [] then NaN else fdiv_count (np_sum xs) (length xs))"

text \<open>\<^verbatim>\<open>np.min(a)\<close> and \<^verbatim>\<open>np.max(a)\<close> raise \<^verbatim>\<open>ValueError\<close> on a zero-size array and
  propagate not-a-number.\<close>

definition reduce1 :: "('a \<Rightarrow> 'a \<Rightarrow> 'a) \<Rightarrow> 'a list \<Rightarrow> 'a" where
  "reduce1 f xs = foldl f (hd xs) (tl xs)"

definition np_min :: "npfloat list \<Rightarrow> error + npfloat" where
  "np_min xs = (if xs = [] then Inl ValueError else Inr (reduce1 fminimum xs))"

definition np_max :: "npfloat list \<Rightarrow> error + npfloat" where
  "np_max xs = (if xs = [] then Inl ValueError else Inr (reduce1 fmaximum xs))"

subsection \<open>The request packet, the client and the data frame\<close>

text \<open>
  The packet is a Python dict with string keys, kept in insertion order. Its values are
  the two coordinates (of any type \<open>'c\<close>: they are only passed on), integers and strings.
\<close>

datatype 'c pval = Coord 'c | IntV int | StrV string

type_synonym 'c packet = "(string \<times> 'c pval) list"

text \<open>
  \<^verbatim>\<open>self.OpenMeteo.weather_api(self.endpoint, params=packet)[0]\<close> either raises or
  gives a response, of which the code reads the first daily variable as an array.
\<close>

datatype fetch_result = Raised string | Response "npfloat list"

text \<open>The dict \<^verbatim>\<open>df_data\<close> of five lists, one per column.\<close>

record df_data =
  year :: "int list"
  precipitation_sum :: "npfloat list"
  precipitation_daily_avg :: "npfloat list"
  precipitation_min :: "npfloat list"
  precipitation_max :: "npfloat list"

definition df_data_init :: df_data where
  "df_data_init =
     \<lparr>year = [], precipitation_sum = [], precipitation_daily_avg = [],
      precipitation_min = [], precipitation_max = []\<rparr>"

text \<open>A data frame: its columns in order, each a name and its cells.\<close>

datatype cell = IntC int | FloatC npfloat

type_synonym dataframe = "(string \<times> cell list) list"

text \<open>\<^verbatim>\<open>pd.DataFrame()\<close>: no column and no row.\<close>

definition pd_DataFrame_empty :: dataframe where
  "pd_DataFrame_empty = []"

text \<open>\<^verbatim>\<open>pd.DataFrame(data=df_data)\<close>.\<close>

definition pd_DataFrame :: "df_data \<Rightarrow> dataframe" where
  "pd_DataFrame d =
     [(''year'', map IntC (year d)),
      (''precipitation_sum'', map FloatC (precipitation_sum d)),
      (''precipitation_daily_avg'', map FloatC (precipitation_daily_avg d)),
      (''precipitation_min'', map FloatC (precipitation_min d)),
      (''precipitation_max'', map FloatC (precipitation_max d))]"

subsection \<open>Python helpers: indexing, slicing, \<^verbatim>\<open>str\<close> of an integer\<close>

definition py_index :: "'a list \<Rightarrow> nat \<Rightarrow> error + 'a" where
  "py_index xs i = (if i < length xs then Inr (xs ! i) else Inl IndexError)"

text \<open>\<^verbatim>\<open>a[lo:hi]\<close> for \<open>0 \<le> lo\<close>: clipped to the array, never an error.\<close>

definition slice :: "'a list \<Rightarrow> nat \<Rightarrow> nat \<Rightarrow> 'a list" where
  "slice xs lo hi = take (hi - lo) (drop lo xs)"

fun digits :: "nat \<Rightarrow> string" where
  "digits n =
     (if n < 10 then [''0123456789'' ! n]
      else digits (n div 10) @ [''0123456789'' ! (n mod 10)])"

declare digits.simps [simp del]

definition str_int :: "int \<Rightarrow> string" where
  "str_int i = (if i < 0 then CHR ''-'' # digits (nat (- i)) else digits (nat i))"

definition lookup_int :: "'c packet \<Rightarrow> string \<Rightarrow> error + int" where
  "lookup_int packet k =
     (case map_of packet k of
        None \<Rightarrow> Inl KeyError
      | Some (IntV i) \<Rightarrow> Inr i
      | Some v \<Rightarrow> Inl TypeError)"

subsection \<open>\<^verbatim>\<open>__send_request\<close>\<close>

text \<open>
  One pass of the \<^verbatim>\<open>for i in range(0, end_year-start_year+1)\<close> loop. The state is
  \<^verbatim>\<open>last_ind\<close> and \<^verbatim>\<open>df_data\<close>.
\<close>

definition bucket_step ::
  "(int \<times> int) list \<Rightarrow> npfloat list \<Rightarrow> int \<Rightarrow> nat \<Rightarrow> nat \<times> df_data \<Rightarrow> error + (nat \<times> df_data)"
where
  "bucket_step dates precip start_year i st =
     (case st of (last_ind, d) \<Rightarrow>
        (case py_index dates i of
           Inl e \<Rightarrow> Inl e
         | Inr se \<Rightarrow>
             (case window_days se of
                Inl e \<Rightarrow> Inl e
              | Inr days \<Rightarrow>
                  (let years_data = slice precip last_ind (days + last_ind) in
                   (case np_min years_data of
                      Inl e \<Rightarrow> Inl e
                    | Inr mn \<Rightarrow>
                        (case np_max years_data of
                           Inl e \<Rightarrow> Inl e
                         | Inr mx \<Rightarrow>
                             Inr (days + last_ind,
                                  d\<lparr>year := year d @ [int i + start_year],
                                    precipitation_sum := precipitation_sum d @ [np_sum years_data],
                                    precipitation_daily_avg :=
                                      precipitation_daily_avg d @ [np_mean years_data],
                                    precipitation_min := precipitation_min d @ [mn],
                                    precipitation_max := precipitation_max d @ [mx]\<rparr>)))))))"

fun bucket_loop ::
  "(int \<times> int) list \<Rightarrow> npfloat list \<Rightarrow> int \<Rightarrow> nat list \<Rightarrow> nat \<times> df_data \<Rightarrow> error + (nat \<times> df_data)"
where
  "bucket_loop dates precip start_year [] st = Inr st"
| "bucket_loop dates precip start_year (i # is) st =
     (case bucket_step dates precip start_year i st of
        Inl e \<Rightarrow> Inl e
      | Inr st' \<Rightarrow> bucket_loop dates precip start_year is st')"

text \<open>
  The result is the list of packets handed to the client, in order, and the outcome:
  an exception that leaves the method, or the data frame it returns. The
  \<^verbatim>\<open>verbose\<close> printing is left out.
\<close>

definition send_request ::
  "(int \<Rightarrow> int) \<Rightarrow> ('c packet \<Rightarrow> fetch_result) \<Rightarrow> 'c packet
     \<Rightarrow> 'c packet list \<times> (error + dataframe)"
where
  "send_request utcoffset fetch packet =
     (case lookup_int packet ''year_start'' of
        Inl e \<Rightarrow> ([], Inl e)
      | Inr start_year \<Rightarrow>
     (case lookup_int packet ''year_end'' of
        Inl e \<Rightarrow> ([], Inl e)
      | Inr end_year \<Rightarrow>
     (case process_dates utcoffset start_year end_year of
        Inl e \<Rightarrow> ([], Inl e)
      | Inr dates \<Rightarrow>
          (let packet1 =
                 AList.update ''start_date'' (StrV (str_int start_year @ ''-01-01'')) packet;
               packet2 =
                 AList.update ''end_date'' (StrV (str_int end_year @ ''-12-31'')) packet1
           in (case fetch packet2 of
                 Raised e \<Rightarrow> ([packet2], Inr pd_DataFrame_empty)
               | Response precip \<Rightarrow>
                   ([packet2],
                    (case bucket_loop dates precip start_year
                            [0 ..< nat (end_year - start_year + 1)] (0, df_data_init) of
                       Inl e \<Rightarrow> Inl e
                     | Inr st \<Rightarrow> Inr (pd_DataFrame (snd st)))))))))"

subsection \<open>\<^verbatim>\<open>get_yearly_precipitation\<close>\<close>

text \<open>The tuple \<^verbatim>\<open>long_lat\<close> is a list here: an index out of it raises.\<close>

definition get_yearly_precipitation ::
  "(int \<Rightarrow> int) \<Rightarrow> ('c packet \<Rightarrow> fetch_result) \<Rightarrow> int \<Rightarrow> int \<Rightarrow> 'c list
     \<Rightarrow> 'c packet list \<times> (error + dataframe)"
where
  "get_yearly_precipitation utcoffset fetch year_start year_end long_lat =
     (case py_index long_lat 1 of
        Inl e \<Rightarrow> ([], Inl e)
      | Inr lat \<Rightarrow>
          (case py_index long_lat 0 of
             Inl e \<Rightarrow> ([], Inl e)
           | Inr lon \<Rightarrow>
               send_request utcoffset fetch
                 [(''latitude'', Coord lat),
                  (''longitude'', Coord lon),
                  (''year_start'', IntV year_start),
                  (''year_end'', IntV year_end),
                  (''daily'', StrV ''precipitation_sum'')]))"

section \<open>Auxiliary notions for the statements\<close>

text \<open>
  The window length the loop computes for a year whose two timestamps are regular:
  one less than the calendar length of the year.
\<close>

definition code_days :: "int \<Rightarrow> nat" where
  "code_days y = (if is_leap y then 365 else 364)"

text \<open>The calendar length of a year, as \<^verbatim>\<open>datetime\<close> counts it: first day to last day,
  both included.\<close>

definition calendar_days :: "int \<Rightarrow> nat" where
  "calendar_days y = nat (ymd2ord y 12 31 - ymd2ord y 1 1 + 1)"

text \<open>
  A year is regular for a zone when the zone has the same UTC offset at the local
  midnights of January 1 and December 31, of at most a day, and both timestamps are
  in the range of a nanosecond \<^verbatim>\<open>Timestamp\<close> (years 1678 to 2261).
\<close>

definition regular_year :: "(int \<Rightarrow> int) \<Rightarrow> int \<Rightarrow> bool" where
  "regular_year utcoffset y =
     (1678 \<le> y \<and> y \<le> 2261 \<and>
      utcoffset (local_seconds (y, 1, 1)) = utcoffset (local_seconds (y, 12, 31)) \<and>
      \<bar>utcoffset (local_seconds (y, 1, 1))\<bar> \<le> 86400)"

text \<open>The slices the loop takes for a list of window lengths, from a start index.\<close>

fun windows :: "nat list \<Rightarrow> nat \<Rightarrow> 'a list \<Rightarrow> 'a list list" where
  "windows [] lo xs = []"
| "windows (d # ds) lo xs = slice xs lo (d + lo) # windows ds (d + lo) xs"

text \<open>The packet \<^verbatim>\<open>__send_request\<close> hands to the client.\<close>

definition request_of :: "'c \<Rightarrow> 'c \<Rightarrow> int \<Rightarrow> int \<Rightarrow> 'c packet" where
  "request_of lon lat year_start year_end =
     [(''latitude'', Coord lat),
      (''longitude'', Coord lon),
      (''year_start'', IntV year_start),
      (''year_end'', IntV year_end),
      (''daily'', StrV ''precipitation_sum''),
      (''start_date'', StrV (str_int year_start @ ''-01-01'')),
      (''end_date'', StrV (str_int year_end @ ''-12-31''))]"

text \<open>The data frame of the statistics of a list of windows.\<close>

definition stats_frame :: "int list \<Rightarrow> npfloat list list \<Rightarrow> dataframe" where
  "stats_frame years ws =
     [(''year'', map IntC years),
      (''precipitation_sum'', map (FloatC \<circ> np_sum) ws),
      (''precipitation_daily_avg'', map (FloatC \<circ> np_mean) ws),
      (''precipitation_min'', map (FloatC \<circ> reduce1 fminimum) ws),
      (''precipitation_max'', map (FloatC \<circ> reduce1 fmaximum) ws)]"

text \<open>The column names of a data frame and its number of rows.\<close>

definition columns :: "dataframe \<Rightarrow> string list" where
  "columns df = map fst df"

definition n_rows :: "dataframe \<Rightarrow> nat" where
  "n_rows df = (case df of [] \<Rightarrow> 0 | c # cs \<Rightarrow> length (snd c))"




section \<open>Properties of the model\<close>

subsection \<open>The window length of a regular year\<close>

lemma year_span:
  "local_seconds (y, 12, 31) - local_seconds (y, 1, 1) = int (code_days y) * 86400"
  by (simp add: local_seconds_def ymd2ord_def days_before_month_def DAYS_BEFORE_MONTH_def
      code_days_def)

lemma calendar_days_eq: "calendar_days y = (if is_leap y then 366 else 365)"
  by (simp add: calendar_days_def ymd2ord_def days_before_month_def DAYS_BEFORE_MONTH_def)

lemma jan1_lower: "1678 \<le> y \<Longrightarrow> - 9223372036 + 86400 \<le> local_seconds (y, 1, 1)"
  unfolding local_seconds_def ymd2ord_def days_before_month_def DAYS_BEFORE_MONTH_def
    days_before_year_def
  by simp

lemma dec31_upper:
  assumes "1678 \<le> y" and "y \<le> 2261"
  shows "local_seconds (y, 12, 31) \<le> 9223372036 - 86400"
proof -
  have d4: "(y - 1) div 4 \<le> 565"
    using zdiv_mono1 [of "y - 1" 2260 4] assms by simp
  have d400: "(y - 1) div 400 \<le> 5"
    using zdiv_mono1 [of "y - 1" 2260 400] assms by simp
  have d100: "16 \<le> (y - 1) div 100"
    using zdiv_mono1 [of 1677 "y - 1" 100] assms by simp
  have "ymd2ord y 12 31 \<le> days_before_year y + 366"
    by (simp add: ymd2ord_def days_before_month_def DAYS_BEFORE_MONTH_def)
  also have "\<dots> \<le> 2260 * 365 + 565 - 16 + 5 + 366"
  proof -
    define a b c where "a = (y - 1) div 4" and "b = (y - 1) div 100" and "c = (y - 1) div 400"
    have "a \<le> 565" "16 \<le> b" "c \<le> 5"
      using d4 d100 d400 by (simp_all add: a_def b_def c_def)
    then have "(y - 1) * 365 + a - b + c + 366 \<le> 2260 * 365 + 565 - 16 + 5 + 366"
      using assms by simp
    then show ?thesis by (simp add: days_before_year_def a_def b_def c_def)
  qed
  finally have "ymd2ord y 12 31 - 719163 \<le> 106657" by simp
  then have "(ymd2ord y 12 31 - 719163) * 86400 \<le> 106657 * 86400"
    by (rule mult_right_mono) simp
  then show ?thesis by (simp add: local_seconds_def)
qed

lemma year_dates_regular:
  assumes "regular_year utcoffset y"
  shows "year_dates utcoffset y =
           Inr (local_seconds (y, 1, 1) - utcoffset (local_seconds (y, 1, 1)),
                local_seconds (y, 12, 31) - utcoffset (local_seconds (y, 1, 1)))"
  using assms by (simp add: regular_year_def year_dates_def strptime_mdY_def timestamp_def)

lemma date_range_left_len_whole:
  "date_range_left_len a (a + int n * 86400) = n"
  by (cases n) (simp_all add: date_range_left_len_def Let_def)

lemma window_days_regular:
  assumes "regular_year utcoffset y" and "year_dates utcoffset y = Inr se"
  shows "window_days se = Inr (code_days y)"
proof -
  define off where "off = utcoffset (local_seconds (y, 1, 1))"
  define a where "a = local_seconds (y, 1, 1) - off"
  have se: "se = (a, a + int (code_days y) * 86400)"
    using assms(2) year_dates_regular [OF assms(1)] year_span [of y]
    by (auto simp: a_def off_def)
  have y: "1678 \<le> y" "y \<le> 2261" and off: "\<bar>off\<bar> \<le> 86400"
    using assms(1) by (auto simp: regular_year_def off_def)
  have lo: "- 9223372036 \<le> a"
    using jan1_lower [OF y(1)] off by (simp add: a_def)
  have "a + int (code_days y) * 86400 = local_seconds (y, 12, 31) - off"
    using year_span [of y] by (simp add: a_def)
  then have hi: "a + int (code_days y) * 86400 \<le> 9223372036"
    using dec31_upper [OF y] off by simp
  have "a \<le> a + int (code_days y) * 86400" by simp
  with lo hi show ?thesis
    by (simp add: se window_days_def to_datetime_def date_range_left_len_whole
        del: of_nat_mult)
qed


subsection \<open>The list comprehension and the dates\<close>

lemma comprehension_map:
  "(\<And>x. x \<in> set xs \<Longrightarrow> f x = Inr (g x)) \<Longrightarrow> comprehension f xs = Inr (map g xs)"
  by (induction xs) simp_all

lemma comprehension_raises:
  assumes "\<And>x. x \<in> set xs \<Longrightarrow> f x = Inl e \<or> (\<exists>y. f x = Inr y)"
    and "\<exists>x\<in>set xs. f x = Inl e"
  shows "comprehension f xs = Inl e"
  using assms
proof (induction xs)
  case Nil
  then show ?case by simp
next
  case (Cons x xs)
  show ?case
  proof (cases "f x")
    case (Inl e')
    with Cons.prems(1) [of x] show ?thesis by simp
  next
    case (Inr y)
    with Cons.prems(2) have "\<exists>x\<in>set xs. f x = Inl e" by auto
    with Cons.IH Cons.prems(1) have "comprehension f xs = Inl e" by simp
    with Inr show ?thesis by simp
  qed
qed

lemma year_dates_cases:
  "year_dates utcoffset y =
     (if 1000 \<le> y \<and> y \<le> 9999
      then Inr (timestamp utcoffset (y, 1, 1), timestamp utcoffset (y, 12, 31))
      else Inl ValueError)"
  by (simp add: year_dates_def strptime_mdY_def)

lemma process_dates_cases:
  "process_dates utcoffset ys ye =
     (if ye < ys \<or> (1000 \<le> ys \<and> ye \<le> 9999)
      then Inr (map (\<lambda>y. (timestamp utcoffset (y, 1, 1), timestamp utcoffset (y, 12, 31)))
                  [ys..ye])
      else Inl ValueError)"
proof (cases "ye < ys \<or> (1000 \<le> ys \<and> ye \<le> 9999)")
  case True
  then have "\<And>y. y \<in> set [ys..ye] \<Longrightarrow> 1000 \<le> y \<and> y \<le> 9999" by auto
  then show ?thesis
    using True unfolding process_dates_def
    by (subst comprehension_map [where g = "\<lambda>y. (timestamp utcoffset (y, 1, 1),
          timestamp utcoffset (y, 12, 31))"]) (simp_all add: year_dates_cases)
next
  case False
  then have mem: "ys \<in> set [ys..ye]" "ye \<in> set [ys..ye]" and "ys < 1000 \<or> 9999 < ye"
    by auto
  then have "year_dates utcoffset ys = Inl ValueError \<or> year_dates utcoffset ye = Inl ValueError"
    by (auto simp: year_dates_cases)
  with mem have "\<exists>y\<in>set [ys..ye]. year_dates utcoffset y = Inl ValueError"
    by blast
  moreover have "\<And>y. year_dates utcoffset y = Inl ValueError \<or> (\<exists>z. year_dates utcoffset y = Inr z)"
    by (simp add: year_dates_cases)
  ultimately have "comprehension (year_dates utcoffset) [ys..ye] = Inl ValueError"
    by (intro comprehension_raises) auto
  with False show ?thesis by (simp add: process_dates_def)
qed

lemma upto_as_upt: "[ys..ye] = map (\<lambda>i. int i + ys) [0 ..< nat (ye - ys + 1)]"
  by (rule nth_equalityI) (simp_all add: add.commute)

subsection \<open>The windows\<close>

lemma length_windows [simp]: "length (windows ds lo xs) = length ds"
  by (induction ds arbitrary: lo) simp_all

lemma concat_windows: "concat (windows ds lo xs) = take (sum_list ds) (drop lo xs)"
proof (induction ds arbitrary: lo)
  case Nil
  then show ?case by simp
next
  case (Cons d ds)
  have "take d (drop lo xs) @ take (sum_list ds) (drop (d + lo) xs)
          = take (d + sum_list ds) (drop lo xs)"
    by (simp add: take_add add.commute)
  with Cons show ?case by (simp add: slice_def)
qed

lemma nth_windows:
  "i < length ds \<Longrightarrow>
     windows ds lo xs ! i = slice xs (lo + sum_list (take i ds)) (lo + sum_list (take (Suc i) ds))"
proof (induction ds arbitrary: lo i)
  case Nil
  then show ?case by simp
next
  case (Cons d ds)
  show ?case
  proof (cases i)
    case 0
    then show ?thesis by (simp add: add.commute)
  next
    case (Suc k)
    with Cons.prems have "k < length ds" by simp
    from Cons.IH [OF this, of "d + lo"] Suc show ?thesis by (simp add: ac_simps)
  qed
qed

lemma windows_nonempty_iff:
  assumes "\<And>d. d \<in> set ds \<Longrightarrow> 0 < d"
  shows "list_all (\<lambda>w. w \<noteq> []) (windows ds lo xs)
           \<longleftrightarrow> ds = [] \<or> lo + sum_list (butlast ds) < length xs"
  using assms
proof (induction ds arbitrary: lo)
  case Nil
  then show ?case by simp
next
  case (Cons d ds)
  have d: "0 < d" using Cons.prems by simp
  have IH: "list_all (\<lambda>w. w \<noteq> []) (windows ds (d + lo) xs)
              \<longleftrightarrow> ds = [] \<or> d + lo + sum_list (butlast ds) < length xs"
    using Cons.IH Cons.prems by simp
  have head: "slice xs lo (d + lo) \<noteq> [] \<longleftrightarrow> lo < length xs"
    using d by (auto simp: slice_def)
  show ?case
  proof (cases "ds = []")
    case True
    then show ?thesis using head by simp
  next
    case False
    then show ?thesis using head IH by (auto simp: ac_simps)
  qed
qed


subsection \<open>The loop\<close>

lemma bucket_step_window:
  assumes "i < length dates" and "window_days (dates ! i) = Inr days"
  shows "bucket_step dates precip sy i (lo, d) =
     (if slice precip lo (days + lo) = [] then Inl ValueError
      else Inr (days + lo,
             d\<lparr>year := year d @ [int i + sy],
               precipitation_sum := precipitation_sum d @ [np_sum (slice precip lo (days + lo))],
               precipitation_daily_avg :=
                 precipitation_daily_avg d @ [np_mean (slice precip lo (days + lo))],
               precipitation_min :=
                 precipitation_min d @ [reduce1 fminimum (slice precip lo (days + lo))],
               precipitation_max :=
                 precipitation_max d @ [reduce1 fmaximum (slice precip lo (days + lo))]\<rparr>))"
  using assms by (simp add: bucket_step_def py_index_def np_min_def np_max_def Let_def)

lemma bucket_loop_windows:
  assumes "\<And>i. i \<in> set ks \<Longrightarrow> i < length dates \<and> window_days (dates ! i) = Inr (dd i)"
  shows "bucket_loop dates precip sy ks (lo, d) =
     (if list_all (\<lambda>w. w \<noteq> []) (windows (map dd ks) lo precip)
      then Inr (lo + sum_list (map dd ks),
             d\<lparr>year := year d @ map (\<lambda>i. int i + sy) ks,
               precipitation_sum :=
                 precipitation_sum d @ map np_sum (windows (map dd ks) lo precip),
               precipitation_daily_avg :=
                 precipitation_daily_avg d @ map np_mean (windows (map dd ks) lo precip),
               precipitation_min :=
                 precipitation_min d @ map (reduce1 fminimum) (windows (map dd ks) lo precip),
               precipitation_max :=
                 precipitation_max d @ map (reduce1 fmaximum) (windows (map dd ks) lo precip)\<rparr>)
      else Inl ValueError)"
  using assms
proof (induction ks arbitrary: lo d)
  case Nil
  show ?case by simp
next
  case (Cons k ks)
  have k: "k < length dates" "window_days (dates ! k) = Inr (dd k)"
    using Cons.prems [of k] by simp_all
  have rest: "\<And>i. i \<in> set ks \<Longrightarrow> i < length dates \<and> window_days (dates ! i) = Inr (dd i)"
    using Cons.prems by simp
  show ?case
  proof (cases "slice precip lo (dd k + lo) = []")
    case True
    then show ?thesis by (simp add: bucket_step_window [OF k])
  next
    case False
    then show ?thesis
      by (simp add: bucket_step_window [OF k] Cons.IH [OF rest] ac_simps)
  qed
qed

lemma pd_DataFrame_stats:
  "pd_DataFrame
     (df_data_init\<lparr>year := year df_data_init @ years,
        precipitation_sum := precipitation_sum df_data_init @ map np_sum ws,
        precipitation_daily_avg := precipitation_daily_avg df_data_init @ map np_mean ws,
        precipitation_min := precipitation_min df_data_init @ map (reduce1 fminimum) ws,
        precipitation_max := precipitation_max df_data_init @ map (reduce1 fmaximum) ws\<rparr>)
   = stats_frame years ws"
  by (simp add: pd_DataFrame_def stats_frame_def df_data_init_def)

subsection \<open>The whole call\<close>

lemma gyp_unparsable:
  assumes "ys \<le> ye" and "ys < 1000 \<or> 9999 < ye"
  shows "get_yearly_precipitation utcoffset fetch ys ye [lon, lat] = ([], Inl ValueError)"
  using assms
  by (auto simp: get_yearly_precipitation_def py_index_def send_request_def lookup_int_def
      process_dates_cases)

lemma gyp_raised:
  assumes "ye < ys \<or> (1000 \<le> ys \<and> ye \<le> 9999)"
    and "fetch (request_of lon lat ys ye) = Raised e"
  shows "get_yearly_precipitation utcoffset fetch ys ye [lon, lat]
           = ([request_of lon lat ys ye], Inr pd_DataFrame_empty)"
  using assms
  by (simp add: get_yearly_precipitation_def py_index_def send_request_def lookup_int_def
      process_dates_cases request_of_def Let_def)

lemma regular_parsable:
  assumes "list_all (regular_year utcoffset) [ys..ye]"
  shows "ye < ys \<or> (1000 \<le> ys \<and> ye \<le> 9999)"
proof (cases "ye < ys")
  case True
  then show ?thesis by simp
next
  case False
  then have "ys \<in> set [ys..ye]" "ye \<in> set [ys..ye]" by simp_all
  with assms have "regular_year utcoffset ys" "regular_year utcoffset ye"
    by (simp_all add: list_all_iff)
  then show ?thesis by (simp add: regular_year_def)
qed

lemma gyp_response:
  assumes reg: "list_all (regular_year utcoffset) [ys..ye]"
    and fetch: "fetch (request_of lon lat ys ye) = Response precip"
  shows "get_yearly_precipitation utcoffset fetch ys ye [lon, lat]
           = ([request_of lon lat ys ye],
              if list_all (\<lambda>w. w \<noteq> []) (windows (map code_days [ys..ye]) 0 precip)
              then Inr (stats_frame [ys..ye] (windows (map code_days [ys..ye]) 0 precip))
              else Inl ValueError)"
proof -
  define n where "n = nat (ye - ys + 1)"
  define dates where
    "dates = map (\<lambda>y. (timestamp utcoffset (y, 1, 1), timestamp utcoffset (y, 12, 31))) [ys..ye]"
  define dd where "dd = (\<lambda>i. code_days (int i + ys))"
  have pd: "process_dates utcoffset ys ye = Inr dates"
    using regular_parsable [OF reg] by (simp add: process_dates_cases dates_def)
  have len: "length dates = n" by (simp add: dates_def n_def)
  have win: "i < length dates \<and> window_days (dates ! i) = Inr (dd i)" if "i \<in> set [0..<n]" for i
  proof -
    from that have i: "i < n" by simp
    then have le: "ys + int i \<le> ye" by (simp add: n_def)
    then have "ys + int i \<in> set [ys..ye]" by simp
    with reg have r: "regular_year utcoffset (ys + int i)" by (simp add: list_all_iff)
    have "dates ! i = (timestamp utcoffset (ys + int i, 1, 1), timestamp utcoffset (ys + int i, 12, 31))"
      using i le by (simp add: dates_def n_def)
    moreover have "year_dates utcoffset (ys + int i) =
        Inr (timestamp utcoffset (ys + int i, 1, 1), timestamp utcoffset (ys + int i, 12, 31))"
      using r by (simp add: year_dates_cases regular_year_def)
    ultimately have "window_days (dates ! i) = Inr (code_days (ys + int i))"
      using window_days_regular [OF r] by simp
    then show ?thesis using i len by (simp add: dd_def add.commute)
  qed
  have dds: "map dd [0..<n] = map code_days [ys..ye]"
    by (simp add: upto_as_upt [of ys ye] n_def dd_def comp_def)
  have yrs: "map (\<lambda>i. int i + ys) [0..<n] = [ys..ye]"
    by (simp add: upto_as_upt [of ys ye] n_def)
  show ?thesis
    using bucket_loop_windows [of "[0..<n]" dates dd precip ys 0 df_data_init, OF win] fetch
    by (simp add: get_yearly_precipitation_def py_index_def send_request_def lookup_int_def
        pd request_of_def Let_def n_def [symmetric] dds yrs pd_DataFrame_stats)
qed

subsection \<open>The reductions on finite values and on not-a-number\<close>

lemma foldl_fadd_Fin: "foldl fadd (Fin a) (map Fin qs) = Fin (a + sum_list qs)"
  by (induction qs arbitrary: a) (simp_all add: add.assoc)

lemma np_sum_Fin: "np_sum (map Fin qs) = Fin (sum_list qs)"
  by (simp add: np_sum_def foldl_fadd_Fin)

lemma np_mean_Fin: "qs \<noteq> [] \<Longrightarrow> np_mean (map Fin qs) = Fin (sum_list qs / of_nat (length qs))"
  by (simp add: np_mean_def np_sum_Fin)

lemma foldl_fminimum_Fin: "foldl fminimum (Fin a) (map Fin qs) = Fin (fold min qs a)"
  by (induction qs arbitrary: a) (simp_all add: min.commute)

lemma foldl_fmaximum_Fin: "foldl fmaximum (Fin a) (map Fin qs) = Fin (fold max qs a)"
  by (induction qs arbitrary: a) (simp_all add: max.commute)

lemma reduce1_fminimum_Fin:
  assumes "qs \<noteq> []"
  shows "reduce1 fminimum (map Fin qs) = Fin (Min (set qs))"
proof -
  from assms obtain q rest where qs: "qs = q # rest" by (cases qs) auto
  have "Min (set (q # rest)) = fold min rest q" by (rule Min.set_eq_fold)
  then show ?thesis by (simp add: qs reduce1_def foldl_fminimum_Fin del: list.set)
qed

lemma reduce1_fmaximum_Fin:
  assumes "qs \<noteq> []"
  shows "reduce1 fmaximum (map Fin qs) = Fin (Max (set qs))"
proof -
  from assms obtain q rest where qs: "qs = q # rest" by (cases qs) auto
  have "Max (set (q # rest)) = fold max rest q" by (rule Max.set_eq_fold)
  then show ?thesis by (simp add: qs reduce1_def foldl_fmaximum_Fin del: list.set)
qed

lemma fadd_NaN_right [simp]: "fadd x NaN = NaN"
  by (cases x) simp_all

lemma fminimum_NaN_right [simp]: "fminimum x NaN = NaN"
  by (cases x) simp_all

lemma fmaximum_NaN_right [simp]: "fmaximum x NaN = NaN"
  by (cases x) simp_all

lemma foldl_fadd_from_NaN [simp]: "foldl fadd NaN xs = NaN"
  by (induction xs) simp_all

lemma foldl_fminimum_from_NaN [simp]: "foldl fminimum NaN xs = NaN"
  by (induction xs) simp_all

lemma foldl_fmaximum_from_NaN [simp]: "foldl fmaximum NaN xs = NaN"
  by (induction xs) simp_all

lemma foldl_fadd_NaN: "NaN \<in> set xs \<Longrightarrow> foldl fadd a xs = NaN"
  by (induction xs arbitrary: a) auto

lemma foldl_fminimum_NaN: "NaN \<in> set xs \<Longrightarrow> foldl fminimum a xs = NaN"
  by (induction xs arbitrary: a) auto

lemma foldl_fmaximum_NaN: "NaN \<in> set xs \<Longrightarrow> foldl fmaximum a xs = NaN"
  by (induction xs arbitrary: a) auto

lemma np_sum_NaN: "NaN \<in> set xs \<Longrightarrow> np_sum xs = NaN"
  by (simp add: np_sum_def foldl_fadd_NaN)

lemma np_mean_NaN: "NaN \<in> set xs \<Longrightarrow> np_mean xs = NaN"
  by (auto simp: np_mean_def np_sum_NaN)

lemma reduce1_fminimum_NaN: "NaN \<in> set xs \<Longrightarrow> reduce1 fminimum xs = NaN"
  by (cases xs) (auto simp: reduce1_def foldl_fminimum_NaN)

lemma reduce1_fmaximum_NaN: "NaN \<in> set xs \<Longrightarrow> reduce1 fmaximum xs = NaN"
  by (cases xs) (auto simp: reduce1_def foldl_fmaximum_NaN)

lemma replicate_Fin: "replicate n (Fin q) = map Fin (replicate n q)"
  by simp

lemma stats_replicate:
  assumes "0 < n"
  shows "np_sum (replicate n (Fin q)) = Fin (of_nat n * q)"
    and "np_mean (replicate n (Fin q)) = Fin q"
    and "reduce1 fminimum (replicate n (Fin q)) = Fin q"
    and "reduce1 fmaximum (replicate n (Fin q)) = Fin q"
  using assms
  by (simp_all add: replicate_Fin np_sum_Fin np_mean_Fin reduce1_fminimum_Fin
      reduce1_fmaximum_Fin sum_list_replicate del: map_replicate)

lemma regular_year_UTC: "regular_year (\<lambda>t. 0) y \<longleftrightarrow> 1678 \<le> y \<and> y \<le> 2261"
  by (simp add: regular_year_def)

subsection \<open>The request sent, and an empty range\<close>

lemma gyp_fst:
  assumes "ye < ys \<or> (1000 \<le> ys \<and> ye \<le> 9999)"
  shows "fst (get_yearly_precipitation utcoffset fetch ys ye [lon, lat])
           = [request_of lon lat ys ye]"
  using assms
  by (simp add: get_yearly_precipitation_def py_index_def send_request_def lookup_int_def
      process_dates_cases request_of_def Let_def split: fetch_result.split)

lemma gyp_empty_range:
  assumes "ye < ys" and "fetch (request_of lon lat ys ye) = Response precip"
  shows "get_yearly_precipitation utcoffset fetch ys ye [lon, lat]
           = ([request_of lon lat ys ye], Inr (stats_frame [] []))"
  using assms gyp_response [of utcoffset ys ye fetch lon lat precip] by simp

subsection \<open>Changing one value of the series\<close>

lemma slice_update_outside:
  assumes "k < lo \<or> hi \<le> k"
  shows "slice (xs[k := v]) lo hi = slice xs lo hi"
proof (cases "k < lo")
  case True
  then show ?thesis by (simp add: slice_def)
next
  case False
  with assms have "lo \<le> k" "hi - lo \<le> k - lo" by simp_all
  then show ?thesis by (simp add: slice_def drop_update_swap)
qed

lemma slice_update_inside:
  assumes "lo \<le> k" and "k < hi" and "k < length xs"
  shows "v \<in> set (slice (xs[k := v]) lo hi)"
proof -
  have "slice (xs[k := v]) lo hi = (take (hi - lo) (drop lo xs))[k - lo := v]"
    using assms by (simp add: slice_def drop_update_swap take_update_swap)
  moreover have "k - lo < length (take (hi - lo) (drop lo xs))"
    using assms by auto
  ultimately show ?thesis by (simp add: set_update_memI)
qed

lemma length_slice_update [simp]: "length (slice (xs[k := v]) lo hi) = length (slice xs lo hi)"
  by (simp add: slice_def)

lemma lengths_windows_update:
  "map length (windows ds lo (xs[k := v])) = map length (windows ds lo xs)"
  by (induction ds arbitrary: lo) simp_all

lemma nonempty_by_length: "list_all (\<lambda>w. w \<noteq> []) ws \<longleftrightarrow> list_all (\<lambda>n. 0 < n) (map length ws)"
  by (induction ws) simp_all

lemma sum_take_mono: "i \<le> i' \<Longrightarrow> sum_list (take i ds) \<le> sum_list (take i' (ds::nat list))"
proof -
  assume "i \<le> i'"
  then have "take i' ds = take i ds @ take (i' - i) (drop i ds)"
    using take_add [of i "i' - i" ds] by simp
  then show ?thesis by simp
qed

lemma windows_update_other:
  assumes "i < length ds" and "j < length ds" and "i \<noteq> j"
    and "sum_list (take j ds) \<le> k" and "k < sum_list (take (Suc j) ds)"
  shows "windows ds 0 (xs[k := v]) ! i = windows ds 0 xs ! i"
proof -
  have "k < sum_list (take i ds) \<or> sum_list (take (Suc i) ds) \<le> k"
  proof (cases "i < j")
    case True
    then have "sum_list (take (Suc i) ds) \<le> sum_list (take j ds)"
      by (intro sum_take_mono) simp
    with assms(4) show ?thesis by simp
  next
    case False
    with assms(3) have "sum_list (take (Suc j) ds) \<le> sum_list (take i ds)"
      by (intro sum_take_mono) simp
    with assms(5) show ?thesis by simp
  qed
  then show ?thesis
    using assms(1) by (simp add: nth_windows slice_update_outside)
qed

lemma windows_update_same:
  assumes "j < length ds" and "sum_list (take j ds) \<le> k" and "k < sum_list (take (Suc j) ds)"
    and "k < length xs"
  shows "v \<in> set (windows ds 0 (xs[k := v]) ! j)"
  using assms by (simp add: nth_windows slice_update_inside)

lemma windows_take:
  "lo + sum_list ds \<le> m \<Longrightarrow> windows ds lo (take m xs) = windows ds lo xs"
proof (induction ds arbitrary: lo)
  case Nil
  then show ?case by simp
next
  case (Cons d ds)
  have "slice (take m xs) lo (d + lo) = slice xs lo (d + lo)"
    using Cons.prems by (simp add: slice_def drop_take min_def)
  moreover have "windows ds (d + lo) (take m xs) = windows ds (d + lo) xs"
    using Cons.prems by (intro Cons.IH) simp
  ultimately show ?case by simp
qed

subsection \<open>The loop over a whole range\<close>

lemma butlast_upt0: "butlast [0..<n] = [0..<n - 1]"
  by (cases n) simp_all

lemma loop_result:
  assumes "\<And>i. i < n \<Longrightarrow> i < length dates \<and> window_days (dates ! i) = Inr (dd i)"
  shows "bucket_loop dates precip sy [0..<n] (0, df_data_init) =
     (if list_all (\<lambda>w. w \<noteq> []) (windows (map dd [0..<n]) 0 precip)
      then Inr (sum_list (map dd [0..<n]),
             \<lparr>year = map (\<lambda>i. int i + sy) [0..<n],
              precipitation_sum = map np_sum (windows (map dd [0..<n]) 0 precip),
              precipitation_daily_avg = map np_mean (windows (map dd [0..<n]) 0 precip),
              precipitation_min = map (reduce1 fminimum) (windows (map dd [0..<n]) 0 precip),
              precipitation_max = map (reduce1 fmaximum) (windows (map dd [0..<n]) 0 precip)\<rparr>)
      else Inl ValueError)"
proof -
  have "\<And>i. i \<in> set [0..<n] \<Longrightarrow> i < length dates \<and> window_days (dates ! i) = Inr (dd i)"
    using assms by simp
  from bucket_loop_windows [of "[0..<n]" dates dd precip sy 0 df_data_init, OF this]
  show ?thesis by (simp add: df_data_init_def)
qed

lemma dates_2000_2001:
  "i < 2 \<Longrightarrow>
     i < length [(946684800, 978220800), (978307200, 1009756800)] \<and>
     window_days ([(946684800, 978220800), (978307200, 1009756800)] ! i)
       = Inr (if i = 0 then 365 else 364) \<and>
     0 < (if i = 0 then 365 else 364 :: nat)"
  by (cases i) (simp_all add: window_days_def to_datetime_def date_range_left_len_def)

lemma loop_succeeds:
  assumes win: "\<And>i. i < n \<Longrightarrow> i < length dates \<and> window_days (dates ! i) = Inr (dd i) \<and> 0 < dd i"
    and reach: "n = 0 \<or> sum_list (map dd [0..<n - 1]) < length precip"
  shows "list_all (\<lambda>w. w \<noteq> []) (windows (map dd [0..<n]) 0 precip)"
    and "bucket_loop dates precip sy [0..<n] (0, df_data_init) =
      Inr (sum_list (map dd [0..<n]),
        \<lparr>year = map (\<lambda>i. int i + sy) [0..<n],
         precipitation_sum = map np_sum (windows (map dd [0..<n]) 0 precip),
         precipitation_daily_avg = map np_mean (windows (map dd [0..<n]) 0 precip),
         precipitation_min = map (reduce1 fminimum) (windows (map dd [0..<n]) 0 precip),
         precipitation_max = map (reduce1 fmaximum) (windows (map dd [0..<n]) 0 precip)\<rparr>)"
proof -
  have w: "i < length dates \<and> window_days (dates ! i) = Inr (dd i)" if "i < n" for i
    using win [OF that] by simp
  have pos: "0 < d" if "d \<in> set (map dd [0..<n])" for d
    using that win by auto
  have "list_all (\<lambda>w. w \<noteq> []) (windows (map dd [0..<n]) 0 precip)
          \<longleftrightarrow> map dd [0..<n] = [] \<or> 0 + sum_list (butlast (map dd [0..<n])) < length precip"
    by (rule windows_nonempty_iff) (rule pos)
  with reach show ne: "list_all (\<lambda>w. w \<noteq> []) (windows (map dd [0..<n]) 0 precip)"
    by (simp add: map_butlast [symmetric] butlast_upt0)
  have "bucket_loop dates precip sy [0..<n] (0, df_data_init) =
     (if list_all (\<lambda>w. w \<noteq> []) (windows (map dd [0..<n]) 0 precip)
      then Inr (sum_list (map dd [0..<n]),
             \<lparr>year = map (\<lambda>i. int i + sy) [0..<n],
              precipitation_sum = map np_sum (windows (map dd [0..<n]) 0 precip),
              precipitation_daily_avg = map np_mean (windows (map dd [0..<n]) 0 precip),
              precipitation_min = map (reduce1 fminimum) (windows (map dd [0..<n]) 0 precip),
              precipitation_max = map (reduce1 fmaximum) (windows (map dd [0..<n]) 0 precip)\<rparr>)
      else Inl ValueError)"
    by (rule loop_result) (rule w)
  with ne show "bucket_loop dates precip sy [0..<n] (0, df_data_init) =
      Inr (sum_list (map dd [0..<n]),
        \<lparr>year = map (\<lambda>i. int i + sy) [0..<n],
         precipitation_sum = map np_sum (windows (map dd [0..<n]) 0 precip),
         precipitation_daily_avg = map np_mean (windows (map dd [0..<n]) 0 precip),
         precipitation_min = map (reduce1 fminimum) (windows (map dd [0..<n]) 0 precip),
         precipitation_max = map (reduce1 fmaximum) (windows (map dd [0..<n]) 0 precip)\<rparr>)"
    by simp
qed

lemma loop_2000_2001:
  "bucket_loop [(946684800, 978220800), (978307200, 1009756800)] (replicate 729 (Fin 1)) 2000
     [0..<2] (0, df_data_init)
   = Inr (729, \<lparr>year = [2000, 2001], precipitation_sum = [Fin 365, Fin 364],
                 precipitation_daily_avg = [Fin 1, Fin 1], precipitation_min = [Fin 1, Fin 1],
                 precipitation_max = [Fin 1, Fin 1]\<rparr>)"
proof -
  let ?dd = "\<lambda>i::nat. if i = 0 then 365 else 364 :: nat"
  have up: "[0..<2] = [0, 1]" by (simp add: upt_rec)
  have ws: "windows (map ?dd [0..<2]) 0 (replicate 729 (Fin 1))
              = [replicate 365 (Fin 1), replicate 364 (Fin 1)]"
    by (simp add: up slice_def)
  have "bucket_loop [(946684800, 978220800), (978307200, 1009756800)] (replicate 729 (Fin 1))
          2000 [0..<2] (0, df_data_init) =
      Inr (sum_list (map ?dd [0..<2]),
        \<lparr>year = map (\<lambda>i. int i + 2000) [0..<2],
         precipitation_sum = map np_sum (windows (map ?dd [0..<2]) 0 (replicate 729 (Fin 1))),
         precipitation_daily_avg =
           map np_mean (windows (map ?dd [0..<2]) 0 (replicate 729 (Fin 1))),
         precipitation_min =
           map (reduce1 fminimum) (windows (map ?dd [0..<2]) 0 (replicate 729 (Fin 1))),
         precipitation_max =
           map (reduce1 fmaximum) (windows (map ?dd [0..<2]) 0 (replicate 729 (Fin 1)))\<rparr>)"
    using dates_2000_2001 by (intro loop_succeeds(2)) (simp_all add: upt_rec)
  then show ?thesis
    unfolding ws by (simp add: up stats_replicate)
qed

subsection \<open>What the client is called with\<close>

lemma gyp_sent:
  assumes "process_dates utcoffset ys ye = Inr dates"
  shows "get_yearly_precipitation utcoffset fetch ys ye [lon, lat] =
     ([request_of lon lat ys ye],
      case fetch (request_of lon lat ys ye) of
        Raised e \<Rightarrow> Inr pd_DataFrame_empty
      | Response precip \<Rightarrow>
          (case bucket_loop dates precip ys [0..<nat (ye - ys + 1)] (0, df_data_init) of
             Inl e \<Rightarrow> Inl e
           | Inr st \<Rightarrow> Inr (pd_DataFrame (snd st))))"
  using assms
  by (simp add: get_yearly_precipitation_def py_index_def send_request_def lookup_int_def
      request_of_def Let_def split: fetch_result.split)

lemma process_dates_2000_2001:
  "process_dates (\<lambda>t. 0) 2000 2001 = Inr [(946684800, 978220800), (978307200, 1009756800)]"
  by (simp add: process_dates_cases timestamp_def local_seconds_def ymd2ord_def
      days_before_year_def days_before_month_def DAYS_BEFORE_MONTH_def is_leap_def)

section \<open>The claims\<close>

text \<open>
  C1 (the per-year window length is 366 for a leap year and 365 otherwise). The code
  does not compute that: \<^verbatim>\<open>pd.date_range\<close> runs from January 1 to December 31 with
  \<^verbatim>\<open>inclusive="left"\<close>, which leaves December 31 out. Evaluated in a UTC zone, the
  window of 2001 has 364 days where the calendar year has 365, and the window of the
  leap year 2000 has 365 where the calendar year has 366.
\<close>

theorem C1_window_one_day_short:
  "year_dates (\<lambda>t. 0) 2001 = Inr (978307200, 1009756800) \<and>
   window_days (978307200, 1009756800) = Inr 364 \<and>
   calendar_days 2001 = 365 \<and>
   year_dates (\<lambda>t. 0) 2000 = Inr (946684800, 978220800) \<and>
   window_days (946684800, 978220800) = Inr 365 \<and>
   calendar_days 2000 = 366"
  by (simp add: year_dates_def strptime_mdY_def timestamp_def local_seconds_def ymd2ord_def
      days_before_year_def days_before_month_def DAYS_BEFORE_MONTH_def is_leap_def
      window_days_def to_datetime_def date_range_left_len_def calendar_days_def)

text \<open>
  C2 (for a series as long as the calendar days of the range, the windows partition the
  series with nothing skipped). The code skips values: for the single year 2001 and a
  series of 365 values, the calendar length of 2001, whose last value is 5.0 and all
  others 0.0, the row has sum, average, minimum and maximum 0.0. The one window the
  loop takes is the first 364 values; the value of December 31 is never read.
\<close>

theorem C2_last_day_never_read:
  "length (replicate 364 (Fin 0) @ [Fin 5]) = calendar_days 2001 \<and>
   get_yearly_precipitation (\<lambda>t. 0) (\<lambda>p. Response (replicate 364 (Fin 0) @ [Fin 5])) 2001 2001
     [lon, lat]
   = ([request_of lon lat 2001 2001],
      Inr [(''year'', [IntC 2001]),
           (''precipitation_sum'', [FloatC (Fin 0)]),
           (''precipitation_daily_avg'', [FloatC (Fin 0)]),
           (''precipitation_min'', [FloatC (Fin 0)]),
           (''precipitation_max'', [FloatC (Fin 0)])]) \<and>
   concat (windows (map code_days [2001..2001]) 0 (replicate 364 (Fin 0) @ [Fin 5]))
     = replicate 364 (Fin 0)"
proof -
  have reg: "list_all (regular_year (\<lambda>t. 0)) [2001..2001]"
    by (simp add: regular_year_UTC)
  have ws: "windows (map code_days [2001..2001]) 0 (replicate 364 (Fin 0) @ [Fin 5])
              = [replicate 364 (Fin 0)]"
    by (simp add: code_days_def is_leap_def slice_def)
  have "get_yearly_precipitation (\<lambda>t. 0) (\<lambda>p. Response (replicate 364 (Fin 0) @ [Fin 5]))
          2001 2001 [lon, lat]
        = ([request_of lon lat 2001 2001],
           if list_all (\<lambda>w. w \<noteq> [])
                (windows (map code_days [2001..2001]) 0 (replicate 364 (Fin 0) @ [Fin 5]))
           then Inr (stats_frame [2001..2001]
                  (windows (map code_days [2001..2001]) 0 (replicate 364 (Fin 0) @ [Fin 5])))
           else Inl ValueError)"
    by (rule gyp_response [OF reg]) simp
  then show ?thesis
    unfolding ws by (simp add: stats_frame_def stats_replicate calendar_days_eq is_leap_def)
qed

text \<open>
  C3 (years 2000 to 2001 against a client that returns 731 values, all 1.0). The code
  returns two rows, for 2000 and 2001, with average, minimum and maximum 1.0, but the
  sums are 365.0 and 364.0, not 366.0 and 365.0: each window is a day short.
\<close>

theorem C3_rows_2000_2001:
  "get_yearly_precipitation (\<lambda>t. 0) (\<lambda>p. Response (replicate 731 (Fin 1))) 2000 2001
     [lon, lat]
   = ([request_of lon lat 2000 2001],
      Inr [(''year'', [IntC 2000, IntC 2001]),
           (''precipitation_sum'', [FloatC (Fin 365), FloatC (Fin 364)]),
           (''precipitation_daily_avg'', [FloatC (Fin 1), FloatC (Fin 1)]),
           (''precipitation_min'', [FloatC (Fin 1), FloatC (Fin 1)]),
           (''precipitation_max'', [FloatC (Fin 1), FloatC (Fin 1)])])"
proof -
  have reg: "list_all (regular_year (\<lambda>t. 0)) [2000..2001]"
    by (simp add: regular_year_UTC)
  have ws: "windows (map code_days [2000..2001]) 0 (replicate 731 (Fin 1))
              = [replicate 365 (Fin 1), replicate 364 (Fin 1)]"
    by (simp add: code_days_def is_leap_def slice_def)
  have "get_yearly_precipitation (\<lambda>t. 0) (\<lambda>p. Response (replicate 731 (Fin 1))) 2000 2001
          [lon, lat]
        = ([request_of lon lat 2000 2001],
           if list_all (\<lambda>w. w \<noteq> [])
                (windows (map code_days [2000..2001]) 0 (replicate 731 (Fin 1)))
           then Inr (stats_frame [2000..2001]
                  (windows (map code_days [2000..2001]) 0 (replicate 731 (Fin 1))))
           else Inl ValueError)"
    by (rule gyp_response [OF reg]) simp
  then show ?thesis
    unfolding ws by (simp add: stats_frame_def stats_replicate)
qed

text \<open>
  C4 (a series whose length differs from the sum of the window lengths makes the
  reduction fail with \<open>SeriesLengthMismatch\<close> and give no table). As stated this fails:
  for the year 2001 and a series of 400 values, which is neither the 364 days of the
  window nor the 365 days of the year, the call returns a table, computed from the
  first 364 values.
\<close>

theorem C4_counterexample:
  "length (replicate 400 (Fin 1)) \<noteq> code_days 2001 \<and>
   length (replicate 400 (Fin 1)) \<noteq> calendar_days 2001 \<and>
   snd (get_yearly_precipitation (\<lambda>t. 0) (\<lambda>p. Response (replicate 400 (Fin 1))) 2001 2001
          [1341 / 100, 1313 / 25 :: rat])
   = Inr [(''year'', [IntC 2001]),
          (''precipitation_sum'', [FloatC (Fin 364)]),
          (''precipitation_daily_avg'', [FloatC (Fin 1)]),
          (''precipitation_min'', [FloatC (Fin 1)]),
          (''precipitation_max'', [FloatC (Fin 1)])]"
proof -
  have reg: "list_all (regular_year (\<lambda>t. 0)) [2001..2001]"
    by (simp add: regular_year_UTC)
  have ws: "windows (map code_days [2001..2001]) 0 (replicate 400 (Fin 1))
              = [replicate 364 (Fin 1)]"
    by (simp add: code_days_def is_leap_def slice_def)
  have "get_yearly_precipitation (\<lambda>t. 0) (\<lambda>p. Response (replicate 400 (Fin 1)))
          2001 2001 [1341 / 100, 1313 / 25 :: rat]
        = ([request_of (1341 / 100) (1313 / 25) 2001 2001],
           if list_all (\<lambda>w. w \<noteq> [])
                (windows (map code_days [2001..2001]) 0 (replicate 400 (Fin 1)))
           then Inr (stats_frame [2001..2001]
                  (windows (map code_days [2001..2001]) 0 (replicate 400 (Fin 1))))
           else Inl ValueError)"
    by (rule gyp_response [OF reg]) simp
  then show ?thesis
    unfolding ws
    by (simp add: stats_frame_def stats_replicate calendar_days_eq code_days_def is_leap_def)
qed

text \<open>
  C4, amended: the reduction makes no length check. For window lengths \<open>dd i\<close> as the
  loop computes them, each positive, the loop gives the same result as on the series
  cut to the sum of the window lengths (what lies beyond the last window is ignored).
  It returns a table with one row per year exactly when the range is empty or the
  series is longer than the sum of the window lengths of all years but the last;
  otherwise it raises the \<^verbatim>\<open>ValueError\<close> of a reduction of an empty array and gives no
  table.
\<close>

theorem C4_no_length_check:
  assumes "\<And>i. i < n \<Longrightarrow> i < length dates \<and> window_days (dates ! i) = Inr (dd i) \<and> 0 < dd i"
  shows "bucket_loop dates precip sy [0..<n] (0, df_data_init)
           = bucket_loop dates (take (sum_list (map dd [0..<n])) precip) sy [0..<n]
               (0, df_data_init) \<and>
         (if n = 0 \<or> sum_list (map dd [0..<n - 1]) < length precip
          then \<exists>d. bucket_loop dates precip sy [0..<n] (0, df_data_init)
                      = Inr (sum_list (map dd [0..<n]), d) \<and> length (year d) = n
          else bucket_loop dates precip sy [0..<n] (0, df_data_init) = Inl ValueError)"
proof -
  have win: "\<And>i. i < n \<Longrightarrow> i < length dates \<and> window_days (dates ! i) = Inr (dd i)"
    using assms by simp
  have pos: "0 < d" if "d \<in> set (map dd [0..<n])" for d
    using that assms by auto
  have "list_all (\<lambda>w. w \<noteq> []) (windows (map dd [0..<n]) 0 precip)
          \<longleftrightarrow> map dd [0..<n] = [] \<or> 0 + sum_list (butlast (map dd [0..<n])) < length precip"
    by (rule windows_nonempty_iff) (rule pos)
  then have ne: "list_all (\<lambda>w. w \<noteq> []) (windows (map dd [0..<n]) 0 precip)
              \<longleftrightarrow> n = 0 \<or> sum_list (map dd [0..<n - 1]) < length precip"
    by (simp add: map_butlast [symmetric] butlast_upt0)
  have tk: "windows (map dd [0..<n]) 0 (take (sum_list (map dd [0..<n])) precip)
              = windows (map dd [0..<n]) 0 precip"
    by (rule windows_take) simp
  have lr: "bucket_loop dates xs sy [0..<n] (0, df_data_init) =
     (if list_all (\<lambda>w. w \<noteq> []) (windows (map dd [0..<n]) 0 xs)
      then Inr (sum_list (map dd [0..<n]),
             \<lparr>year = map (\<lambda>i. int i + sy) [0..<n],
              precipitation_sum = map np_sum (windows (map dd [0..<n]) 0 xs),
              precipitation_daily_avg = map np_mean (windows (map dd [0..<n]) 0 xs),
              precipitation_min = map (reduce1 fminimum) (windows (map dd [0..<n]) 0 xs),
              precipitation_max = map (reduce1 fmaximum) (windows (map dd [0..<n]) 0 xs)\<rparr>)
      else Inl ValueError)" for xs
    by (rule loop_result) (rule win)
  have "bucket_loop dates precip sy [0..<n] (0, df_data_init)
          = bucket_loop dates (take (sum_list (map dd [0..<n])) precip) sy [0..<n]
              (0, df_data_init)"
    by (simp only: lr tk)
  moreover have "if n = 0 \<or> sum_list (map dd [0..<n - 1]) < length precip
          then \<exists>d. bucket_loop dates precip sy [0..<n] (0, df_data_init)
                      = Inr (sum_list (map dd [0..<n]), d) \<and> length (year d) = n
          else bucket_loop dates precip sy [0..<n] (0, df_data_init) = Inl ValueError"
    by (simp add: lr ne)
  ultimately show ?thesis by blast
qed

theorem C4_witness:
  "bucket_loop [(946684800, 978220800), (978307200, 1009756800)] (replicate 1000 (Fin 1)) 2000
     [0..<2] (0, df_data_init)
   = bucket_loop [(946684800, 978220800), (978307200, 1009756800)] (replicate 729 (Fin 1)) 2000
       [0..<2] (0, df_data_init) \<and>
   (\<exists>d. bucket_loop [(946684800, 978220800), (978307200, 1009756800)] (replicate 1000 (Fin 1))
          2000 [0..<2] (0, df_data_init) = Inr (729, d) \<and> length (year d) = 2) \<and>
   bucket_loop [(946684800, 978220800), (978307200, 1009756800)] (replicate 365 (Fin 1)) 2000
     [0..<2] (0, df_data_init) = Inl ValueError"
proof -
  have s2: "sum_list (map (\<lambda>i. if i = 0 then 365 else 364) [0..<2]) = (729::nat)"
    by (simp add: upt_rec)
  have s1: "sum_list (map (\<lambda>i. if i = 0 then 365 else 364) [0..<2 - 1]) = (365::nat)"
    by (simp add: upt_rec)
  note long = C4_no_length_check [of 2 "[(946684800, 978220800), (978307200, 1009756800)]"
      "\<lambda>i. if i = 0 then 365 else 364" "replicate 1000 (Fin 1)" 2000, OF dates_2000_2001]
  note short = C4_no_length_check [of 2 "[(946684800, 978220800), (978307200, 1009756800)]"
      "\<lambda>i. if i = 0 then 365 else 364" "replicate 365 (Fin 1)" 2000, OF dates_2000_2001]
  note long' = long [unfolded s1 s2, simplified]
  note short' = short [unfolded s1 s2, simplified]
  from long' short' show ?thesis by blast
qed

text \<open>
  C5 (a failure of the fetch is surfaced as a \<open>FetchFailed\<close> failure, never as an empty
  table). As stated this fails: with a client that raises, the call for 2000 to 2001
  returns the data frame with no column and no row as its value.
\<close>

theorem C5_counterexample:
  "get_yearly_precipitation (\<lambda>t. 0) (\<lambda>p. Raised ''ConnectionError'') 2000 2001
     [1341 / 100, 1313 / 25 :: rat]
   = ([request_of (1341 / 100) (1313 / 25) 2000 2001], Inr []) \<and>
   columns [] = [] \<and> n_rows [] = 0"
  by (simp add: gyp_raised pd_DataFrame_empty_def columns_def n_rows_def)

text \<open>
  C5, amended: when the client raises on the request (the years of a non-empty range
  being four-digit years, so that the request is built), the call raises nothing. It
  sends that one request and returns the empty data frame \<^verbatim>\<open>pd.DataFrame()\<close> as
  its value, and the value is the same whatever the client raised: the cause is dropped.
\<close>

theorem C5_failure_returned_as_empty_frame:
  assumes "ye < ys \<or> (1000 \<le> ys \<and> ye \<le> 9999)"
    and "fetch (request_of lon lat ys ye) = Raised e"
    and "fetch' (request_of lon lat ys ye) = Raised e'"
  shows "get_yearly_precipitation utcoffset fetch ys ye [lon, lat]
           = ([request_of lon lat ys ye], Inr pd_DataFrame_empty) \<and>
         get_yearly_precipitation utcoffset fetch' ys ye [lon, lat]
           = get_yearly_precipitation utcoffset fetch ys ye [lon, lat]"
  using assms by (simp add: gyp_raised)

theorem C5_witness:
  "get_yearly_precipitation (\<lambda>t. 0) (\<lambda>p. Raised ''timeout'') 1970 2022 [1341 / 100, 1313 / 25 :: rat]
     = ([request_of (1341 / 100) (1313 / 25) 1970 2022], Inr pd_DataFrame_empty) \<and>
   get_yearly_precipitation (\<lambda>t. 0) (\<lambda>p. Raised ''HTTP 500'') 1970 2022 [1341 / 100, 1313 / 25 :: rat]
     = get_yearly_precipitation (\<lambda>t. 0) (\<lambda>p. Raised ''timeout'') 1970 2022 [1341 / 100, 1313 / 25]"
  using C5_failure_returned_as_empty_frame [of 2022 1970 "\<lambda>p. Raised ''timeout''"
      "1341 / 100 :: rat" "1313 / 25" "''timeout''" "\<lambda>p. Raised ''HTTP 500''" "''HTTP 500''"
      "\<lambda>t. 0"]
  by simp

text \<open>
  C6 (a range with \<open>year_start > year_end\<close> fails with \<open>InvalidRange\<close> before any
  fetch). As stated this fails: for 2020 and 2019 the request is sent, with start date
  2020-01-01 and end date 2019-12-31, and when the client raises on it the call returns
  the empty data frame.
\<close>

theorem C6_counterexample:
  "get_yearly_precipitation (\<lambda>t. 0) (\<lambda>p. Raised ''HTTP 400'') 2020 2019
     [1341 / 100, 1313 / 25 :: rat]
   = ([[(''latitude'', Coord (1313 / 25)), (''longitude'', Coord (1341 / 100)),
        (''year_start'', IntV 2020), (''year_end'', IntV 2019),
        (''daily'', StrV ''precipitation_sum''),
        (''start_date'', StrV ''2020-01-01''), (''end_date'', StrV ''2019-12-31'')]],
      Inr [])"
  by (simp add: gyp_raised pd_DataFrame_empty_def request_of_def str_int_def digits.simps)

text \<open>
  C6, amended: for \<open>year_start > year_end\<close> the call raises nothing and checks nothing.
  It sends exactly one request, with the inverted start and end dates, and returns an
  empty table: the data frame with no column when the client raises, the five columns
  with no row when the client answers.
\<close>

theorem C6_inverted_range_is_fetched:
  assumes "ye < ys"
  shows "fst (get_yearly_precipitation utcoffset fetch ys ye [lon, lat])
           = [request_of lon lat ys ye] \<and>
         snd (get_yearly_precipitation utcoffset fetch ys ye [lon, lat])
           = (case fetch (request_of lon lat ys ye) of
                Raised e \<Rightarrow> Inr pd_DataFrame_empty
              | Response precip \<Rightarrow> Inr (stats_frame [] []))"
proof (cases "fetch (request_of lon lat ys ye)")
  case (Raised e)
  with assms show ?thesis by (simp add: gyp_raised)
next
  case (Response precip)
  with assms show ?thesis by (simp add: gyp_empty_range)
qed

theorem C6_witness:
  "fst (get_yearly_precipitation (\<lambda>t. 0) (\<lambda>p. Response []) 2020 2019 [1341 / 100, 1313 / 25 :: rat])
     = [request_of (1341 / 100) (1313 / 25) 2020 2019] \<and>
   snd (get_yearly_precipitation (\<lambda>t. 0) (\<lambda>p. Response []) 2020 2019 [1341 / 100, 1313 / 25 :: rat])
     = Inr [(''year'', []), (''precipitation_sum'', []), (''precipitation_daily_avg'', []),
            (''precipitation_min'', []), (''precipitation_max'', [])]"
  using C6_inverted_range_is_fetched [of 2019 2020 "\<lambda>t. 0" "\<lambda>p. Response []"
      "1341 / 100 :: rat" "1313 / 25"]
  by (simp add: stats_frame_def)




text \<open>
  C8 (not-a-number propagation). Let the loop succeed on a series, and let \<open>k\<close> be an
  index of the series inside the window of year \<open>j\<close>. With not-a-number at \<open>k\<close> the loop
  succeeds as well, the sum, average, minimum and maximum of year \<open>j\<close> are all
  not-a-number, and the rows of all other years are the same as before. If the series
  already has not-a-number at \<open>k\<close>, nothing changes, so these are its own rows.
\<close>

theorem C8_nan_propagation:
  assumes win: "\<And>i. i < n \<Longrightarrow> i < length dates \<and> window_days (dates ! i) = Inr (dd i)"
    and ok: "bucket_loop dates precip sy [0..<n] (0, df_data_init) = Inr (m, d)"
    and j: "j < n"
    and k: "sum_list (map dd [0..<j]) \<le> k" "k < sum_list (map dd [0..<Suc j])"
      "k < length precip"
  shows "\<exists>d'. bucket_loop dates (precip[k := NaN]) sy [0..<n] (0, df_data_init) = Inr (m, d') \<and>
           precipitation_sum d' ! j = NaN \<and> precipitation_daily_avg d' ! j = NaN \<and>
           precipitation_min d' ! j = NaN \<and> precipitation_max d' ! j = NaN \<and>
           year d' = year d \<and>
           (\<forall>i<n. i \<noteq> j \<longrightarrow>
              precipitation_sum d' ! i = precipitation_sum d ! i \<and>
              precipitation_daily_avg d' ! i = precipitation_daily_avg d ! i \<and>
              precipitation_min d' ! i = precipitation_min d ! i \<and>
              precipitation_max d' ! i = precipitation_max d ! i) \<and>
           (precip ! k = NaN \<longrightarrow> d' = d)"
proof -
  define ds where "ds = map dd [0..<n]"
  define W where "W = windows ds 0 precip"
  define W' where "W' = windows ds 0 (precip[k := NaN])"
  define stats where "stats = (\<lambda>ws.
     \<lparr>year = map (\<lambda>i. int i + sy) [0..<n],
      precipitation_sum = map np_sum ws,
      precipitation_daily_avg = map np_mean ws,
      precipitation_min = map (reduce1 fminimum) ws,
      precipitation_max = map (reduce1 fmaximum) ws\<rparr>)"
  have lr: "bucket_loop dates xs sy [0..<n] (0, df_data_init) =
     (if list_all (\<lambda>w. w \<noteq> []) (windows ds 0 xs)
      then Inr (sum_list ds, stats (windows ds 0 xs)) else Inl ValueError)" for xs
    unfolding ds_def stats_def by (rule loop_result) (rule win)
  from ok lr [of precip] have ne: "list_all (\<lambda>w. w \<noteq> []) W"
    and m: "m = sum_list ds" and d: "d = stats W"
    by (simp_all add: W_def split: if_splits)
  have "map length W' = map length W"
    by (simp add: W'_def W_def lengths_windows_update)
  with ne have ne': "list_all (\<lambda>w. w \<noteq> []) W'"
    by (simp add: nonempty_by_length)
  with lr [of "precip[k := NaN]"] m
  have res: "bucket_loop dates (precip[k := NaN]) sy [0..<n] (0, df_data_init)
               = Inr (m, stats W')"
    by (simp add: W'_def)
  have len: "length ds = n" "length W = n" "length W' = n"
    by (simp_all add: ds_def W_def W'_def)
  have lo: "sum_list (take j ds) \<le> k" and hi: "k < sum_list (take (Suc j) ds)"
    using k j by (simp_all add: ds_def take_map)
  have "NaN \<in> set (W' ! j)"
    unfolding W'_def using j lo hi k(3) by (intro windows_update_same) (simp_all add: len)
  then have row: "np_sum (W' ! j) = NaN" "np_mean (W' ! j) = NaN"
    "reduce1 fminimum (W' ! j) = NaN" "reduce1 fmaximum (W' ! j) = NaN"
    by (simp_all add: np_sum_NaN np_mean_NaN reduce1_fminimum_NaN reduce1_fmaximum_NaN)
  have other: "W' ! i = W ! i" if "i < n" "i \<noteq> j" for i
    unfolding W'_def W_def using that j lo hi
    by (intro windows_update_other) (simp_all add: len)
  have same: "stats W' = stats W" if "precip ! k = NaN"
  proof -
    from that have "precip[k := NaN] = precip" by (metis list_update_id)
    then show ?thesis by (simp add: W'_def W_def)
  qed
  show ?thesis
  proof (intro exI conjI allI impI)
    show "bucket_loop dates (precip[k := NaN]) sy [0..<n] (0, df_data_init) = Inr (m, stats W')"
      by (rule res)
    show "precipitation_sum (stats W') ! j = NaN" using j row by (simp add: stats_def len)
    show "precipitation_daily_avg (stats W') ! j = NaN" using j row by (simp add: stats_def len)
    show "precipitation_min (stats W') ! j = NaN" using j row by (simp add: stats_def len)
    show "precipitation_max (stats W') ! j = NaN" using j row by (simp add: stats_def len)
    show "year (stats W') = year d" by (simp add: d stats_def)
    show "precipitation_sum (stats W') ! i = precipitation_sum d ! i" if "i < n" "i \<noteq> j" for i
      using that other [OF that] by (simp add: d stats_def len)
    show "precipitation_daily_avg (stats W') ! i = precipitation_daily_avg d ! i"
      if "i < n" "i \<noteq> j" for i
      using that other [OF that] by (simp add: d stats_def len)
    show "precipitation_min (stats W') ! i = precipitation_min d ! i" if "i < n" "i \<noteq> j" for i
      using that other [OF that] by (simp add: d stats_def len)
    show "precipitation_max (stats W') ! i = precipitation_max d ! i" if "i < n" "i \<noteq> j" for i
      using that other [OF that] by (simp add: d stats_def len)
    show "stats W' = d" if "precip ! k = NaN"
      using same [OF that] by (simp add: d)
  qed
qed

theorem C8_witness:
  "\<exists>d'. bucket_loop [(946684800, 978220800), (978307200, 1009756800)]
          ((replicate 729 (Fin 1))[400 := NaN]) 2000 [0..<2] (0, df_data_init) = Inr (729, d') \<and>
        precipitation_sum d' ! 1 = NaN \<and> precipitation_daily_avg d' ! 1 = NaN \<and>
        precipitation_min d' ! 1 = NaN \<and> precipitation_max d' ! 1 = NaN \<and>
        year d' = [2000, 2001] \<and>
        precipitation_sum d' ! 0 = Fin 365 \<and> precipitation_daily_avg d' ! 0 = Fin 1 \<and>
        precipitation_min d' ! 0 = Fin 1 \<and> precipitation_max d' ! 0 = Fin 1"
proof -
  let ?dates = "[(946684800, 978220800), (978307200, 1009756800)] :: (int \<times> int) list"
  let ?dd = "\<lambda>i::nat. if i = 0 then 365 else 364 :: nat"
  let ?d = "\<lparr>year = [2000, 2001], precipitation_sum = [Fin 365, Fin 364],
             precipitation_daily_avg = [Fin 1, Fin 1], precipitation_min = [Fin 1, Fin 1],
             precipitation_max = [Fin 1, Fin 1]\<rparr>"
  have win: "i < length ?dates \<and> window_days (?dates ! i) = Inr (?dd i)" if "i < 2" for i
    using dates_2000_2001 [OF that] by simp
  have up: "[0..<2] = [0, 1]" by (simp add: upt_rec)
  have ws: "windows (map ?dd [0..<2]) 0 (replicate 729 (Fin 1))
              = [replicate 365 (Fin 1), replicate 364 (Fin 1)]"
    by (simp add: up slice_def)
  have "bucket_loop ?dates (replicate 729 (Fin 1)) 2000 [0..<2] (0, df_data_init) =
     (if list_all (\<lambda>w. w \<noteq> []) (windows (map ?dd [0..<2]) 0 (replicate 729 (Fin 1)))
      then Inr (sum_list (map ?dd [0..<2]),
             \<lparr>year = map (\<lambda>i. int i + 2000) [0..<2],
              precipitation_sum = map np_sum (windows (map ?dd [0..<2]) 0 (replicate 729 (Fin 1))),
              precipitation_daily_avg =
                map np_mean (windows (map ?dd [0..<2]) 0 (replicate 729 (Fin 1))),
              precipitation_min =
                map (reduce1 fminimum) (windows (map ?dd [0..<2]) 0 (replicate 729 (Fin 1))),
              precipitation_max =
                map (reduce1 fmaximum) (windows (map ?dd [0..<2]) 0 (replicate 729 (Fin 1)))\<rparr>)
      else Inl ValueError)"
    by (rule loop_result) (rule win)
  then have ok: "bucket_loop ?dates (replicate 729 (Fin 1)) 2000 [0..<2] (0, df_data_init)
                   = Inr (729, ?d)"
    unfolding ws by (simp add: up stats_replicate)
  have k: "sum_list (map ?dd [0..<1]) \<le> 400" "400 < sum_list (map ?dd [0..<Suc 1])"
    "400 < length (replicate 729 (Fin 1))"
    by (simp_all add: upt_rec)
  from C8_nan_propagation [of 2 ?dates ?dd "replicate 729 (Fin 1)" 2000 729 ?d 1 400,
      OF win ok _ k]
  show ?thesis by auto
qed

text \<open>
  C9 (when the client raises, the call returns an empty data frame that cannot be told
  from a successful query over an empty range). The last part fails as stated: the
  frame returned on a failure has no column, the frame of a successful query over the
  empty range 2020 to 2019 has the five columns, so their column lists differ.
\<close>

theorem C9_counterexample:
  "snd (get_yearly_precipitation (\<lambda>t. 0) (\<lambda>p. Raised ''timeout'') 2000 2001
          [1341 / 100, 1313 / 25 :: rat]) = Inr [] \<and>
   snd (get_yearly_precipitation (\<lambda>t. 0) (\<lambda>p. Response []) 2020 2019
          [1341 / 100, 1313 / 25 :: rat])
     = Inr [(''year'', []), (''precipitation_sum'', []), (''precipitation_daily_avg'', []),
            (''precipitation_min'', []), (''precipitation_max'', [])] \<and>
   columns [] \<noteq>
     columns [(''year'', []), (''precipitation_sum'', []), (''precipitation_daily_avg'', []),
              (''precipitation_min'', []), (''precipitation_max'', [])]"
  by (simp add: gyp_raised gyp_empty_range pd_DataFrame_empty_def stats_frame_def columns_def)

text \<open>
  C9, amended: when the client raises on the request, the call does not raise and
  returns the empty data frame: no row and no column. A successful query over an empty
  range returns no row either, but the five columns year, precipitation_sum,
  precipitation_daily_avg, precipitation_min and precipitation_max.
\<close>

theorem C9_failure_gives_frame_without_columns:
  assumes "ye < ys \<or> (1000 \<le> ys \<and> ye \<le> 9999)"
    and "fetch (request_of lon lat ys ye) = Raised e"
    and "ye' < ys'"
    and "fetch' (request_of lon' lat' ys' ye') = Response precip"
  shows "snd (get_yearly_precipitation utcoffset fetch ys ye [lon, lat])
           = Inr pd_DataFrame_empty \<and>
         n_rows pd_DataFrame_empty = 0 \<and> columns pd_DataFrame_empty = [] \<and>
         snd (get_yearly_precipitation utcoffset' fetch' ys' ye' [lon', lat'])
           = Inr (stats_frame [] []) \<and>
         n_rows (stats_frame [] []) = 0 \<and>
         columns (stats_frame [] [])
           = [''year'', ''precipitation_sum'', ''precipitation_daily_avg'',
              ''precipitation_min'', ''precipitation_max'']"
  using assms
  by (simp add: gyp_raised gyp_empty_range pd_DataFrame_empty_def stats_frame_def columns_def
      n_rows_def)

theorem C9_witness:
  "snd (get_yearly_precipitation (\<lambda>t. 0) (\<lambda>p. Raised ''timeout'') 1970 2022
          [1341 / 100, 1313 / 25 :: rat]) = Inr pd_DataFrame_empty \<and>
   n_rows pd_DataFrame_empty = 0 \<and> columns pd_DataFrame_empty = [] \<and>
   snd (get_yearly_precipitation (\<lambda>t. 0) (\<lambda>p. Response []) 2020 2019
          [1341 / 100, 1313 / 25 :: rat]) = Inr (stats_frame [] []) \<and>
   n_rows (stats_frame [] []) = 0 \<and>
   columns (stats_frame [] [])
     = [''year'', ''precipitation_sum'', ''precipitation_daily_avg'',
        ''precipitation_min'', ''precipitation_max'']"
  using C9_failure_gives_frame_without_columns [of 2022 1970 "\<lambda>p. Raised ''timeout''"
      "1341 / 100 :: rat" "1313 / 25" "''timeout''" 2019 2020 "\<lambda>p. Response []"
      "1341 / 100 :: rat" "1313 / 25" "[]" "\<lambda>t. 0" "\<lambda>t. 0"]
  by simp

text \<open>
  C10 (longitude first). For a tuple of two elements and a range whose dates parse, the
  client is called with exactly one packet, in which the first element of the tuple is
  \<open>longitude\<close> and the second is \<open>latitude\<close>, and what the call returns is decided by
  what the client does on that packet: the empty data frame when it raises, the
  reduction of its series when it answers. The witness has a client that answers that
  packet only, and one that answers only the packet with the two coordinates exchanged.
\<close>

theorem C10_longitude_first:
  assumes "length long_lat = 2"
    and "process_dates utcoffset ys ye = Inr dates"
  shows "get_yearly_precipitation utcoffset fetch ys ye long_lat =
     ([request_of (long_lat ! 0) (long_lat ! 1) ys ye],
      case fetch (request_of (long_lat ! 0) (long_lat ! 1) ys ye) of
        Raised e \<Rightarrow> Inr pd_DataFrame_empty
      | Response precip \<Rightarrow>
          (case bucket_loop dates precip ys [0..<nat (ye - ys + 1)] (0, df_data_init) of
             Inl e \<Rightarrow> Inl e
           | Inr st \<Rightarrow> Inr (pd_DataFrame (snd st)))) \<and>
     map_of (request_of (long_lat ! 0) (long_lat ! 1) ys ye) ''longitude''
       = Some (Coord (long_lat ! 0)) \<and>
     map_of (request_of (long_lat ! 0) (long_lat ! 1) ys ye) ''latitude''
       = Some (Coord (long_lat ! 1))"
proof -
  from assms(1) obtain lon lat where ll: "long_lat = [lon, lat]"
    by (cases long_lat; cases "tl long_lat") auto
  show ?thesis
    unfolding ll using gyp_sent [OF assms(2), of fetch lon lat]
    by (simp add: request_of_def)
qed

theorem C10_witness:
  "get_yearly_precipitation (\<lambda>t. 0)
     (\<lambda>p. if p = request_of (1341 / 100) (1313 / 25) 2000 2001
          then Response (replicate 729 (Fin 1)) else Raised ''another request'')
     2000 2001 [1341 / 100, 1313 / 25 :: rat]
   = ([request_of (1341 / 100) (1313 / 25) 2000 2001],
      Inr [(''year'', [IntC 2000, IntC 2001]),
           (''precipitation_sum'', [FloatC (Fin 365), FloatC (Fin 364)]),
           (''precipitation_daily_avg'', [FloatC (Fin 1), FloatC (Fin 1)]),
           (''precipitation_min'', [FloatC (Fin 1), FloatC (Fin 1)]),
           (''precipitation_max'', [FloatC (Fin 1), FloatC (Fin 1)])]) \<and>
   get_yearly_precipitation (\<lambda>t. 0)
     (\<lambda>p. if p = request_of (1313 / 25) (1341 / 100) 2000 2001
          then Response (replicate 729 (Fin 1)) else Raised ''another request'')
     2000 2001 [1341 / 100, 1313 / 25 :: rat]
   = ([request_of (1341 / 100) (1313 / 25) 2000 2001], Inr pd_DataFrame_empty) \<and>
   map_of (request_of (1341 / 100) (1313 / 25 :: rat) 2000 2001) ''longitude''
     = Some (Coord (1341 / 100)) \<and>
   map_of (request_of (1341 / 100) (1313 / 25 :: rat) 2000 2001) ''latitude''
     = Some (Coord (1313 / 25))"
proof -
  have ne: "request_of (1341 / 100) (1313 / 25 :: rat) 2000 2001
              \<noteq> request_of (1313 / 25) (1341 / 100) 2000 2001"
    by (simp add: request_of_def)
  note here = C10_longitude_first [of "[1341 / 100, 1313 / 25 :: rat]" "\<lambda>t. 0" 2000 2001
      "[(946684800, 978220800), (978307200, 1009756800)]"
      "\<lambda>p. if p = request_of (1341 / 100) (1313 / 25) 2000 2001
          then Response (replicate 729 (Fin 1)) else Raised ''another request''",
      OF _ process_dates_2000_2001]
  note swapped = C10_longitude_first [of "[1341 / 100, 1313 / 25 :: rat]" "\<lambda>t. 0" 2000 2001
      "[(946684800, 978220800), (978307200, 1009756800)]"
      "\<lambda>p. if p = request_of (1313 / 25) (1341 / 100) 2000 2001
          then Response (replicate 729 (Fin 1)) else Raised ''another request''",
      OF _ process_dates_2000_2001]
  from here swapped ne show ?thesis
    by (simp add: loop_2000_2001 pd_DataFrame_def)
qed

end
